theory Spec2Isabelle
  imports Main
begin

section \<open>JavaScript values and string primitives used by server.js\<close>

text \<open>
  Strings are \<open>char list\<close>. The primitives below are the JavaScript built-ins that
  \<^verbatim>\<open>server.js\<close> calls, each restricted to the way it is called there (a
  one-character separator for \<^verbatim>\<open>split\<close>, a one-character pattern for
  \<^verbatim>\<open>replace\<close>).
\<close>

datatype jsval = JUndefined | JNull | JBool bool | JNum int | JStr string

text \<open>A number is an integer or \<^verbatim>\<open>NaN\<close>; the arithmetic of
  \<^verbatim>\<open>calculateDelayMinutes\<close> propagates \<^verbatim>\<open>NaN\<close>.\<close>

datatype jsnum = NaN | Num int

datatype js_error = TypeError

text \<open>\<^verbatim>\<open>!v\<close>: the falsy values.\<close>

fun falsy :: "jsval \<Rightarrow> bool" where
  "falsy JUndefined = True"
| "falsy JNull = True"
| "falsy (JBool b) = (\<not> b)"
| "falsy (JNum n) = (n = 0)"
| "falsy (JStr s) = (s = [])"

text \<open>\<^verbatim>\<open>s.split(sep)\<close> for a one-character separator. The result is never
  empty: \<^verbatim>\<open>"".split('/')\<close> is \<^verbatim>\<open>[""]\<close>.\<close>

fun js_split :: "char \<Rightarrow> string \<Rightarrow> string list" where
  "js_split sep [] = [[]]"
| "js_split sep (c # cs) =
     (let r = js_split sep cs
      in if c = sep then [] # r else (c # hd r) # tl r)"

text \<open>\<^verbatim>\<open>xs.pop()\<close> and \<^verbatim>\<open>xs[i]\<close>: \<^verbatim>\<open>undefined\<close> (here \<open>None\<close>)
  when there is no such element.\<close>

definition js_pop :: "'a list \<Rightarrow> 'a option" where
  "js_pop xs = (if xs = [] then None else Some (last xs))"

definition js_index :: "'a list \<Rightarrow> nat \<Rightarrow> 'a option" where
  "js_index xs i = (if i < length xs then Some (xs ! i) else None)"

text \<open>\<^verbatim>\<open>s.replace(/-/g, ' ')\<close>.\<close>

definition replace_hyphens :: "string \<Rightarrow> string" where
  "replace_hyphens s = map (\<lambda>c. if c = CHR ''-'' then CHR '' '' else c) s"

definition is_digit :: "char \<Rightarrow> bool" where
  "is_digit c = (c \<in> set ''0123456789'')"

definition digit_val :: "char \<Rightarrow> int" where
  "digit_val c = int (of_char c) - 48"

text \<open>
  \<^verbatim>\<open>Number(s)\<close> on the strings that reach it. The pieces between the colons of a
  regular-expression match are strings of decimal digits; on those (and on the empty
  string, which converts to 0) the conversion is the decimal value. Any other text is
  given \<^verbatim>\<open>NaN\<close>; JavaScript's further numeric literals (signs, blanks,
  fractions, exponents, hexadecimal) are outside this model, and no theorem below
  depends on them.
\<close>

definition js_Number :: "string \<Rightarrow> jsnum" where
  "js_Number s =
     (if list_all is_digit s then Num (foldl (\<lambda>a c. 10 * a + digit_val c) 0 s) else NaN)"

text \<open>Array destructuring \<^verbatim>\<open>const [h, m] = xs.map(Number)\<close>: a missing element is
  \<^verbatim>\<open>undefined\<close>, which is \<^verbatim>\<open>NaN\<close> in arithmetic.\<close>

definition number_at :: "string list \<Rightarrow> nat \<Rightarrow> jsnum" where
  "number_at xs i = (case js_index (map js_Number xs) i of None \<Rightarrow> NaN | Some v \<Rightarrow> v)"

fun num_mul :: "jsnum \<Rightarrow> jsnum \<Rightarrow> jsnum" where
  "num_mul (Num a) (Num b) = Num (a * b)"
| "num_mul _ _ = NaN"

fun num_add :: "jsnum \<Rightarrow> jsnum \<Rightarrow> jsnum" where
  "num_add (Num a) (Num b) = Num (a + b)"
| "num_add _ _ = NaN"

fun num_sub :: "jsnum \<Rightarrow> jsnum \<Rightarrow> jsnum" where
  "num_sub (Num a) (Num b) = Num (a - b)"
| "num_sub _ _ = NaN"

text \<open>\<^verbatim>\<open>a < b\<close> is false when either side is \<^verbatim>\<open>NaN\<close>.\<close>

fun num_less :: "jsnum \<Rightarrow> jsnum \<Rightarrow> bool" where
  "num_less (Num a) (Num b) = (a < b)"
| "num_less _ _ = False"

text \<open>\<^verbatim>\<open>Math.max(a, b)\<close> is \<^verbatim>\<open>NaN\<close> when either argument is.\<close>

fun num_max :: "jsnum \<Rightarrow> jsnum \<Rightarrow> jsnum" where
  "num_max (Num a) (Num b) = Num (max a b)"
| "num_max _ _ = NaN"

section \<open>TimeDelay: calculateDelayMinutes and parseTimeAndDelay\<close>

text \<open>
  \<^verbatim>\<open>
  function calculateDelayMinutes(std, etd) {
      if (std === etd) return 0;
      const [stdH, stdM] = std.split(':').map(Number);
      const [etdH, etdM] = etd.split(':').map(Number);
      let stdMinutes = stdH * 60 + stdM;
      let etdMinutes = etdH * 60 + etdM;
      if (etdMinutes < stdMinutes - 12 * 60) etdMinutes += 24 * 60;
      return Math.max(0, etdMinutes - stdMinutes);
  }
  \<close>
\<close>

definition minutes_of :: "string \<Rightarrow> jsnum" where
  "minutes_of t =
     (let parts = js_split CHR '':'' t
      in num_add (num_mul (number_at parts 0) (Num 60)) (number_at parts 1))"

definition calculateDelayMinutes :: "string \<Rightarrow> string \<Rightarrow> jsnum" where
  "calculateDelayMinutes std etd =
     (if std = etd then Num 0
      else
        let stdMinutes = minutes_of std;
            etdMinutes = minutes_of etd;
            etdMinutes' =
              (if num_less etdMinutes (num_sub stdMinutes (Num (12 * 60)))
               then num_add etdMinutes (Num (24 * 60)) else etdMinutes)
        in num_max (Num 0) (num_sub etdMinutes' stdMinutes))"

text \<open>
  The regular expression \<^verbatim>\<open>/([0-9]{1,2}:[0-9]{2})/g\<close>. At a position the greedy
  quantifier first tries two hour digits, then backtracks to one. \<open>match_time_at\<close> is
  the match starting at the head of the string, if there is one.
\<close>

definition match_two :: "string \<Rightarrow> string option" where
  "match_two s =
     (case s of
        a # b # c # d # e # _ \<Rightarrow>
          if is_digit a \<and> is_digit b \<and> c = CHR '':'' \<and> is_digit d \<and> is_digit e
          then Some [a, b, c, d, e] else None
      | _ \<Rightarrow> None)"

definition match_one :: "string \<Rightarrow> string option" where
  "match_one s =
     (case s of
        a # c # d # e # _ \<Rightarrow>
          if is_digit a \<and> c = CHR '':'' \<and> is_digit d \<and> is_digit e
          then Some [a, c, d, e] else None
      | _ \<Rightarrow> None)"

definition match_time_at :: "string \<Rightarrow> string option" where
  "match_time_at s = (case match_two s of Some m \<Rightarrow> Some m | None \<Rightarrow> match_one s)"

text \<open>
  The global scan: the matches from left to right, each search resuming right after
  the previous match, one character further where there is no match.
\<close>

function match_all :: "string \<Rightarrow> string list" where
  "match_all [] = []"
| "match_all (c # cs) =
     (case match_time_at (c # cs) of
        Some m \<Rightarrow> m # match_all (drop (length m - 1) cs)
      | None \<Rightarrow> match_all cs)"
  by pat_completeness auto
termination
  by (relation "measure length") auto

text \<open>\<^verbatim>\<open>rawText.match(re)\<close> with the \<^verbatim>\<open>g\<close> flag: \<^verbatim>\<open>null\<close> (here
  \<open>None\<close>) when nothing matches, the array of the matched texts otherwise.\<close>

definition js_match_times :: "string \<Rightarrow> string list option" where
  "js_match_times s = (case match_all s of [] \<Rightarrow> None | m # ms \<Rightarrow> Some (m # ms))"

record time_delay =
  td_std :: string
  td_etd :: string
  td_delayMins :: jsnum

text \<open>
  \<^verbatim>\<open>
  function parseTimeAndDelay(rawText) {
      const times = rawText.match(/([0-9]{1,2}:[0-9]{2})/g);
      if (!times || times.length === 0) {
          return { std: "--:--", etd: "--:--", delayMins: 0 };
      }
      const std = times[0];
      const etd = times.length > 1 ? times[1] : std;
      const delayMins = calculateDelayMinutes(std, etd);
      return { std, etd, delayMins };
  }
  \<close>
\<close>

definition parseTimeAndDelay :: "string \<Rightarrow> time_delay" where
  "parseTimeAndDelay rawText =
     (case js_match_times rawText of
        None \<Rightarrow> \<lparr>td_std = ''--:--'', td_etd = ''--:--'', td_delayMins = Num 0\<rparr>
      | Some tms \<Rightarrow>
          (if length tms = 0
           then \<lparr>td_std = ''--:--'', td_etd = ''--:--'', td_delayMins = Num 0\<rparr>
           else
             let std = tms ! 0;
                 etd = (if length tms > 1 then tms ! 1 else std);
                 delayMins = calculateDelayMinutes std etd
             in \<lparr>td_std = std, td_etd = etd, td_delayMins = delayMins\<rparr>))"

section \<open>AirlineResolver: getAirlineNameFromUrl\<close>

text \<open>
  \<^verbatim>\<open>
  function getAirlineNameFromUrl(url) {
      if (!url) return "Other";
      try {
          const filename = url.split('/').pop().split('.')[0];
          const parts = filename.split('_');
          let name = parts[0].replace(/-/g, ' ');
          return name || "Other";
      } catch (e) {
          return "Other";
      }
  }
  \<close>
  Calling \<^verbatim>\<open>split\<close> or \<^verbatim>\<open>replace\<close> on a value that has no such method
  (\<^verbatim>\<open>undefined\<close>, a number, a boolean) raises a \<^verbatim>\<open>TypeError\<close>.
  \<open>airline_try\<close> is the body of the \<^verbatim>\<open>try\<close> block, its exceptions as
  \<open>Inl\<close>.
\<close>

definition call_split :: "char \<Rightarrow> jsval \<Rightarrow> js_error + string list" where
  "call_split sep v = (case v of JStr s \<Rightarrow> Inr (js_split sep s) | _ \<Rightarrow> Inl TypeError)"

definition airline_try :: "jsval \<Rightarrow> js_error + string" where
  "airline_try url =
     (case call_split CHR ''/'' url of
        Inl e \<Rightarrow> Inl e
      | Inr segments \<Rightarrow>
          (case js_pop segments of
             None \<Rightarrow> Inl TypeError
           | Some seg \<Rightarrow>
               (case js_index (js_split CHR ''.'' seg) 0 of
                  None \<Rightarrow> Inl TypeError
                | Some filename \<Rightarrow>
                    (let parts = js_split CHR ''_'' filename
                     in case js_index parts 0 of
                          None \<Rightarrow> Inl TypeError
                        | Some p \<Rightarrow>
                            (let name = replace_hyphens p
                             in Inr (if name = [] then ''Other'' else name))))))"

definition getAirlineNameFromUrl :: "jsval \<Rightarrow> string" where
  "getAirlineNameFromUrl url =
     (if falsy url then ''Other''
      else case airline_try url of Inl e \<Rightarrow> ''Other'' | Inr name \<Rightarrow> name)"

section \<open>The exceptions of JavaScript made explicit\<close>

text \<open>
  The functions above are typed: a time is a string, and a method call on a string
  cannot fail. JavaScript has no such types: \<^verbatim>\<open>times[1]\<close> is \<^verbatim>\<open>undefined\<close> when
  the array is too short, and \<^verbatim>\<open>split\<close> or \<^verbatim>\<open>match\<close> called on a value without
  that method raises a \<^verbatim>\<open>TypeError\<close>, which nothing in \<^verbatim>\<open>parseFlights\<close> catches.
  The definitions of this section, and \<open>process_row_exc\<close> and \<open>parseFlights_exc\<close>
  further down, are the same functions on dynamic values, each such call checked, an
  exception ending the \<^verbatim>\<open>each\<close> loop.
\<close>






section \<open>FlightTableParser: parseFlights\<close>

text \<open>
  \<^verbatim>\<open>cheerio.load(html)\<close> is the library's HTML parser; the model starts from the
  tree it builds: text nodes and elements with a tag name, attributes and children.
  A cheerio selection is a list of nodes in document order.
\<close>

datatype node = Text string | Element string "(string \<times> string) list" "node list"

text \<open>\<^verbatim>\<open>.text()\<close>: the text of the text nodes below a node, in document order.\<close>

fun text_of :: "node \<Rightarrow> string" where
  "text_of (Text s) = s"
| "text_of (Element t as cs) = concat (map text_of cs)"

text \<open>The elements of a subtree in document order, its root first.\<close>

fun subtree_elements :: "node \<Rightarrow> node list" where
  "subtree_elements (Text s) = []"
| "subtree_elements (Element t as cs) = Element t as cs # concat (map subtree_elements cs)"

definition tag_is :: "string \<Rightarrow> node \<Rightarrow> bool" where
  "tag_is t n = (case n of Element t' _ _ \<Rightarrow> t' = t | Text _ \<Rightarrow> False)"

definition children_of :: "node \<Rightarrow> node list" where
  "children_of n = (case n of Element _ _ cs \<Rightarrow> cs | Text _ \<Rightarrow> [])"

text \<open>\<^verbatim>\<open>$('tr')\<close>: every element of the document with that tag.\<close>

definition select_all :: "string \<Rightarrow> node list \<Rightarrow> node list" where
  "select_all t doc = filter (tag_is t) (concat (map subtree_elements doc))"

text \<open>\<^verbatim>\<open>$(n).find(t)\<close>: the proper descendants of \<open>n\<close> with that tag, at any depth.\<close>

definition find_in :: "string \<Rightarrow> node \<Rightarrow> node list" where
  "find_in t n = select_all t (children_of n)"

text \<open>\<^verbatim>\<open>$(x)\<close> for an array element \<open>x\<close>: the empty selection when \<open>x\<close> is
  \<^verbatim>\<open>undefined\<close>.\<close>

definition wrap :: "node option \<Rightarrow> node list" where
  "wrap x = (case x of None \<Rightarrow> [] | Some n \<Rightarrow> [n])"

definition sel_text :: "node list \<Rightarrow> string" where
  "sel_text sel = concat (map text_of sel)"

text \<open>\<^verbatim>\<open>find\<close> on a selection; the selections it is called on here have at most one
  element, so cheerio's removal of duplicates does not come into play.\<close>

definition sel_find :: "string \<Rightarrow> node list \<Rightarrow> node list" where
  "sel_find t sel = concat (map (find_in t) sel)"

text \<open>\<^verbatim>\<open>.attr(name)\<close>: the attribute of the first element of the selection,
  \<^verbatim>\<open>undefined\<close> when the selection is empty or the attribute is missing.\<close>

definition sel_attr :: "string \<Rightarrow> node list \<Rightarrow> string option" where
  "sel_attr name sel =
     (case sel of
        [] \<Rightarrow> None
      | n # _ \<Rightarrow> (case n of Element _ as _ \<Rightarrow> map_of as name | Text _ \<Rightarrow> None))"

text \<open>
  \<^verbatim>\<open>trim\<close> removes white space and line terminators at both ends. A string is
  held as its UTF-8 bytes, so a white-space character is one to three bytes: the ASCII
  ones (tab, line feed, vertical tab, form feed, carriage return, space), U+00A0,
  U+1680, U+2000 to U+200A, U+2028, U+2029, U+202F, U+205F, U+3000 and U+FEFF.
\<close>

definition is_white_space :: "nat list \<Rightarrow> bool" where
  "is_white_space bs =
     (case bs of
        [b] \<Rightarrow> b \<in> set [9, 10, 11, 12, 13, 32]
      | [b1, b2] \<Rightarrow> b1 = 194 \<and> b2 = 160
      | [b1, b2, b3] \<Rightarrow>
          (b1 = 225 \<and> b2 = 154 \<and> b3 = 128)
          \<or> (b1 = 226 \<and> b2 = 128 \<and> ((128 \<le> b3 \<and> b3 \<le> 138) \<or> b3 \<in> set [168, 169, 175]))
          \<or> (b1 = 226 \<and> b2 = 129 \<and> b3 = 159)
          \<or> (b1 = 227 \<and> b2 = 128 \<and> b3 = 128)
          \<or> (b1 = 239 \<and> b2 = 187 \<and> b3 = 191)
      | _ \<Rightarrow> False)"

definition bytes :: "string \<Rightarrow> nat list" where
  "bytes s = map of_char s"

text \<open>Removing from the front every leading character whose bytes satisfy \<open>p\<close>.\<close>

function strip_leading :: "(nat list \<Rightarrow> bool) \<Rightarrow> string \<Rightarrow> string" where
  "strip_leading p s =
     (if s = [] then []
      else if p (bytes (take 1 s)) then strip_leading p (drop 1 s)
      else if p (bytes (take 2 s)) then strip_leading p (drop 2 s)
      else if p (bytes (take 3 s)) then strip_leading p (drop 3 s)
      else s)"
  by pat_completeness auto
termination
  by (relation "measure (\<lambda>(p, s). length s)") auto

definition trim :: "string \<Rightarrow> string" where
  "trim s =
     rev (strip_leading (\<lambda>bs. is_white_space (rev bs))
            (rev (strip_leading is_white_space s)))"

text \<open>\<^verbatim>\<open>toLowerCase\<close> on the ASCII letters. No character outside ASCII lower-cases
  to one of the letters of \<^verbatim>\<open>origin\<close> alone, so the test below is not affected.\<close>

definition lower_char :: "char \<Rightarrow> char" where
  "lower_char c =
     (let n = of_char c :: nat in if 65 \<le> n \<and> n \<le> 90 then char_of (n + 32) else c)"

definition toLowerCase :: "string \<Rightarrow> string" where
  "toLowerCase s = map lower_char s"

text \<open>\<^verbatim>\<open>s.includes(t)\<close>: \<open>t\<close> occurs in \<open>s\<close> as a contiguous substring.\<close>

fun js_includes :: "string \<Rightarrow> string \<Rightarrow> bool" where
  "js_includes [] t = (t = [])"
| "js_includes (c # cs) t = (take (length t) (c # cs) = t \<or> js_includes cs t)"

record flight =
  airlineImg :: "string option"
  airlineName :: string
  flightNo :: string
  dest :: string
  std :: string
  etd :: string
  delayMins :: jsnum
  gate :: string
  status :: string

text \<open>The argument \<^verbatim>\<open>attr('src')\<close> hands to \<^verbatim>\<open>getAirlineNameFromUrl\<close>.\<close>

definition attr_value :: "string option \<Rightarrow> jsval" where
  "attr_value a = (case a of None \<Rightarrow> JUndefined | Some s \<Rightarrow> JStr s)"

text \<open>
  The body of the \<^verbatim>\<open>$('tr').each((i, row) => ...)\<close> callback: \<^verbatim>\<open>return\<close>
  leaves \<^verbatim>\<open>flights\<close> as it is, \<^verbatim>\<open>flights.push\<close> appends one record.
\<close>

definition cell_text :: "node list \<Rightarrow> nat \<Rightarrow> string" where
  "cell_text cols i = trim (sel_text (wrap (js_index cols i)))"

definition process_row :: "flight list \<Rightarrow> node \<Rightarrow> flight list" where
  "process_row flights row =
     (let cols = find_in ''td'' row
      in if length cols < 7 then flights
         else
           let destText = cell_text cols 2
           in if js_includes (toLowerCase destText) ''origin'' then flights
              else
                let airlineImg = sel_attr ''src'' (sel_find ''img'' (wrap (js_index cols 0)));
                    flightNo = cell_text cols 1;
                    timeRaw = cell_text cols 4;
                    gate = cell_text cols 5;
                    status = cell_text cols 6;
                    t = parseTimeAndDelay timeRaw;
                    airlineName = getAirlineNameFromUrl (attr_value airlineImg)
                in flights @
                   [\<lparr>airlineImg = airlineImg, airlineName = airlineName,
                     flightNo = flightNo, dest = destText,
                     std = td_std t, etd = td_etd t, delayMins = td_delayMins t,
                     gate = gate, status = status\<rparr>])"

definition parseFlights :: "node list \<Rightarrow> flight list" where
  "parseFlights html = foldl process_row [] (select_all ''tr'' html)"

section \<open>The loop of parseFlights with the exceptions explicit\<close>





section \<open>FreshnessCache and the /api/departures handler\<close>

text \<open>\<^verbatim>\<open>const cache = { data: null, lastFetch: 0 }\<close>; \<^verbatim>\<open>null\<close> is \<open>None\<close>.\<close>

record cache =
  data :: "flight list option"
  lastFetch :: int

definition initial_cache :: cache where
  "initial_cache = \<lparr>data = None, lastFetch = 0\<rparr>"

definition CACHE_DURATION :: int where
  "CACHE_DURATION = 15 * 60 * 1000"

text \<open>
  What the headless browser does during one request, as the handler observes it:
  \<^item> \<open>Thrown msg\<close>: \<^verbatim>\<open>launch\<close>, \<^verbatim>\<open>newPage\<close>, \<^verbatim>\<open>setUserAgent\<close> or
    \<^verbatim>\<open>goto\<close> raises an error with that message;
  \<^item> \<open>Response ok code content\<close>: \<^verbatim>\<open>goto\<close> returns a response with
    \<^verbatim>\<open>response.ok()\<close> and \<^verbatim>\<open>response.status()\<close>; \<open>content\<close> is what
    \<^verbatim>\<open>page.content()\<close> does when asked: raise (\<open>Inl\<close> the message) or return the
    page, given here as the tree \<^verbatim>\<open>cheerio.load\<close> builds from it.
\<close>

datatype render_outcome =
  Thrown string
| Response bool nat "string + node list"

record request_env =
  now :: int
  render :: render_outcome
  now_after :: int

datatype http_response = Json "flight list" | Status500 string string

fun show_nat :: "nat \<Rightarrow> string" where
  "show_nat n =
     (if n < 10 then [''0123456789'' ! n]
      else show_nat (n div 10) @ [''0123456789'' ! (n mod 10)])"

text \<open>The \<^verbatim>\<open>try\<close> block up to \<^verbatim>\<open>parseFlights(body)\<close>: the parsed flights, or
  the message of the error raised.\<close>

definition fetch_flights :: "render_outcome \<Rightarrow> string + flight list" where
  "fetch_flights r =
     (case r of
        Thrown msg \<Rightarrow> Inl msg
      | Response ok code content \<Rightarrow>
          (if \<not> ok then Inl (''Airport server responded with '' @ show_nat code)
           else case content of
                  Inl msg \<Rightarrow> Inl msg
                | Inr body \<Rightarrow> Inr (parseFlights body)))"

text \<open>Lines 153 and 154: the whole array and the time stamp are replaced together.\<close>

definition cache_set :: "flight list \<Rightarrow> int \<Rightarrow> cache \<Rightarrow> cache" where
  "cache_set flights t c = c\<lparr>data := Some flights, lastFetch := t\<rparr>"

text \<open>The test of line 122, \<^verbatim>\<open>cache.data && isCacheFresh\<close>, for a window
  \<open>windowMs\<close>; an array, also the empty one, is truthy.\<close>

definition isFresh :: "cache \<Rightarrow> int \<Rightarrow> int \<Rightarrow> bool" where
  "isFresh c t windowMs = (data c \<noteq> None \<and> t - lastFetch c < windowMs)"

text \<open>
  One request. \<open>now env\<close> is \<^verbatim>\<open>Date.now()\<close> on entry, \<open>now_after env\<close> the
  second \<^verbatim>\<open>Date.now()\<close>, read when the cache is updated. \<open>launched\<close> records
  whether \<^verbatim>\<open>puppeteer.launch\<close> was called, \<open>cache_after\<close> is the cache the
  request leaves behind. The \<^verbatim>\<open>finally\<close> block closes the browser and touches
  neither the response nor the cache.
\<close>

record handled =
  response :: http_response
  cache_after :: cache
  launched :: bool

definition get_departures :: "request_env \<Rightarrow> cache \<Rightarrow> handled" where
  "get_departures env c =
     (case (if isFresh c (now env) CACHE_DURATION then data c else None) of
        Some cached \<Rightarrow> \<lparr>response = Json cached, cache_after = c, launched = False\<rparr>
      | None \<Rightarrow>
          (case fetch_flights (render env) of
             Inr flights \<Rightarrow>
               \<lparr>response = Json flights,
                cache_after = cache_set flights (now_after env) c, launched = True\<rparr>
           | Inl message \<Rightarrow>
               (case data c of
                  Some stale \<Rightarrow> \<lparr>response = Json stale, cache_after = c, launched = True\<rparr>
                | None \<Rightarrow>
                    \<lparr>response = Status500 ''Failed to fetch flight data'' message,
                     cache_after = c, launched = True\<rparr>)))"

text \<open>A sequence of requests handled one after the other on the shared cache.\<close>

fun serve :: "request_env list \<Rightarrow> cache \<Rightarrow> http_response list \<times> cache" where
  "serve [] c = ([], c)"
| "serve (env # envs) c =
     (let h = get_departures env c;
          (rs, c') = serve envs (cache_after h)
      in (response h # rs, c'))"

section \<open>Reference notions for the statements\<close>

text \<open>
  The notions the specification speaks in, written independently of the code above
  and compared with it in the theorems.
\<close>

text \<open>A text of the shape: one or two digits of hour, a colon, two digits of minute.\<close>

fun time_pattern :: "string \<Rightarrow> bool" where
  "time_pattern [a, c, d, e] =
     (is_digit a \<and> c = CHR '':'' \<and> is_digit d \<and> is_digit e)"
| "time_pattern [a, b, c, d, e] =
     (is_digit a \<and> is_digit b \<and> c = CHR '':'' \<and> is_digit d \<and> is_digit e)"
| "time_pattern _ = False"

text \<open>Minutes since midnight of such a text.\<close>

fun clock_minutes :: "string \<Rightarrow> int" where
  "clock_minutes [a, c, d, e] = 60 * digit_val a + (10 * digit_val d + digit_val e)"
| "clock_minutes [a, b, c, d, e] =
     60 * (10 * digit_val a + digit_val b) + (10 * digit_val d + digit_val e)"
| "clock_minutes _ = 0"

text \<open>The final path segment: what follows the last slash.\<close>

definition final_segment :: "string \<Rightarrow> string" where
  "final_segment s = rev (takeWhile (\<lambda>c. c \<noteq> CHR ''/'') (rev s))"

text \<open>Stripping the file extension: the last dot and what follows it are removed; a
  name without a dot is left as it is.\<close>

definition strip_extension :: "string \<Rightarrow> string" where
  "strip_extension seg =
     (if CHR ''.'' \<in> set seg then rev (tl (dropWhile (\<lambda>c. c \<noteq> CHR ''.'') (rev seg)))
      else seg)"

definition before_first :: "char \<Rightarrow> string \<Rightarrow> string" where
  "before_first sep s = takeWhile (\<lambda>c. c \<noteq> sep) s"

definition or_sentinel :: "string \<Rightarrow> string" where
  "or_sentinel name = (if name = [] then ''Other'' else name)"

text \<open>The resolver as the specification words it: final path segment, file extension
  stripped, the piece before the first underscore, hyphens to spaces.\<close>

definition spec_resolveAirlineName :: "jsval \<Rightarrow> string" where
  "spec_resolveAirlineName url =
     (case url of
        JStr s \<Rightarrow>
          if s = [] then ''Other''
          else or_sentinel (replace_hyphens
                 (before_first CHR ''_'' (strip_extension (final_segment s))))
      | _ \<Rightarrow> ''Other'')"

text \<open>The same pipeline with "the part before the first dot" in place of the stripped
  extension.\<close>

definition first_dot_resolveAirlineName :: "jsval \<Rightarrow> string" where
  "first_dot_resolveAirlineName url =
     (case url of
        JStr s \<Rightarrow>
          if s = [] then ''Other''
          else or_sentinel (replace_hyphens
                 (before_first CHR ''_'' (before_first CHR ''.'' (final_segment s))))
      | _ \<Rightarrow> ''Other'')"

definition dot_count :: "string \<Rightarrow> nat" where
  "dot_count s = length (filter (\<lambda>c. c = CHR ''.'') s)"

text \<open>A row qualifies when it has at least seven data cells and the lower-cased trimmed
  text of its destination cell does not contain \<^verbatim>\<open>origin\<close>.\<close>

definition qualifying_row :: "node \<Rightarrow> bool" where
  "qualifying_row row =
     (7 \<le> length (find_in ''td'' row) \<and>
      \<not> js_includes (toLowerCase (trim (text_of (find_in ''td'' row ! 2)))) ''origin'')"

text \<open>The record of a qualifying row, its fields by cell position.\<close>

definition record_of_row :: "node \<Rightarrow> flight" where
  "record_of_row row =
     (let cells = find_in ''td'' row;
          img = sel_attr ''src'' (find_in ''img'' (cells ! 0));
          t = parseTimeAndDelay (trim (text_of (cells ! 4)))
      in \<lparr>airlineImg = img,
          airlineName = getAirlineNameFromUrl (attr_value img),
          flightNo = trim (text_of (cells ! 1)),
          dest = trim (text_of (cells ! 2)),
          std = td_std t, etd = td_etd t, delayMins = td_delayMins t,
          gate = trim (text_of (cells ! 5)),
          status = trim (text_of (cells ! 6))\<rparr>)"







text \<open>A sample page: the header row, a row with a single cell, a flight with an airline
  image and two times, and a flight with neither.\<close>

definition example_header_row :: node where
  "example_header_row =
     Element ''tr'' []
       [Element ''td'' [] [Text ''Airline''], Element ''td'' [] [Text ''Flight''],
        Element ''td'' [] [Text '' Origin/Destination ''], Element ''td'' [] [Text ''Via''],
        Element ''td'' [] [Text ''Time''], Element ''td'' [] [Text ''Gate''],
        Element ''td'' [] [Text ''Status'']]"

definition example_short_row :: node where
  "example_short_row = Element ''tr'' [] [Element ''td'' [] [Text ''no flights'']]"

definition example_flight_row :: node where
  "example_flight_row =
     Element ''tr'' []
       [Element ''td'' [] [Element ''img'' [(''src'', ''/images/air-india_logo.png'')] []],
        Element ''td'' [] [Text '' AI 544 ''], Element ''td'' [] [Text ''Delhi''],
        Element ''td'' [] [], Element ''td'' [] [Text ''23:50 00:10''],
        Element ''td'' [] [Text ''12''], Element ''td'' [] [Text ''Delayed'']]"

definition example_plain_row :: node where
  "example_plain_row =
     Element ''tr'' []
       [Element ''td'' [] [], Element ''td'' [] [Text ''6E 201''],
        Element ''td'' [] [Text ''Goa''], Element ''td'' [] [],
        Element ''td'' [] [Text ''TBA''], Element ''td'' [] [],
        Element ''td'' [] []]"

definition example_page :: "node list" where
  "example_page =
     [Element ''table'' []
        [example_header_row, example_short_row, example_flight_row, example_plain_row]]"



section \<open>The handler and its cache\<close>

lemma fetch_flights_cases:
  "fetch_flights (Thrown msg) = Inl msg"
  "fetch_flights (Response False code content) =
     Inl (''Airport server responded with '' @ show_nat code)"
  "fetch_flights (Response True code (Inl msg)) = Inl msg"
  "fetch_flights (Response True code (Inr body)) = Inr (parseFlights body)"
  by (simp_all add: fetch_flights_def)

lemma get_departures_fresh:
  "isFresh c (now env) CACHE_DURATION \<Longrightarrow>
   \<exists>cached. data c = Some cached \<and>
     get_departures env c = \<lparr>response = Json cached, cache_after = c, launched = False\<rparr>"
  by (auto simp: get_departures_def isFresh_def)

lemma get_departures_failed:
  "\<not> isFresh c (now env) CACHE_DURATION \<Longrightarrow> fetch_flights (render env) = Inl reason \<Longrightarrow>
   get_departures env c =
     \<lparr>response = (case data c of Some stale \<Rightarrow> Json stale
                              | None \<Rightarrow> Status500 ''Failed to fetch flight data'' reason),
      cache_after = c, launched = True\<rparr>"
  by (simp add: get_departures_def split: option.splits)

lemma get_departures_refreshed:
  "\<not> isFresh c (now env) CACHE_DURATION \<Longrightarrow> fetch_flights (render env) = Inr flights \<Longrightarrow>
   get_departures env c =
     \<lparr>response = Json flights, cache_after = cache_set flights (now_after env) c,
      launched = True\<rparr>"
  by (simp add: get_departures_def)

lemma status500_only_without_data:
  "response (get_departures env c) = Status500 e d \<Longrightarrow> data c = None"
  by (auto simp: get_departures_def isFresh_def split: option.splits sum.splits if_splits)

lemma data_kept: "data c \<noteq> None \<Longrightarrow> data (cache_after (get_departures env c)) \<noteq> None"
  by (auto simp: get_departures_def cache_set_def split: option.splits sum.splits if_splits)

lemma serve_no_500:
  "data c \<noteq> None \<Longrightarrow> r \<in> set (fst (serve envs c)) \<Longrightarrow> r \<noteq> Status500 e d"
proof (induction envs arbitrary: c)
  case Nil
  then show ?case by simp
next
  case (Cons env envs)
  obtain rs c' where s: "serve envs (cache_after (get_departures env c)) = (rs, c')"
    by (cases "serve envs (cache_after (get_departures env c))")
  from Cons.prems(2) s have "r = response (get_departures env c) \<or> r \<in> set rs"
    by (simp add: Let_def)
  then show ?case
  proof
    assume "r = response (get_departures env c)"
    with Cons.prems(1) show ?thesis by (auto dest: status500_only_without_data)
  next
    assume "r \<in> set rs"
    with s have "r \<in> set (fst (serve envs (cache_after (get_departures env c))))" by simp
    with Cons.IH [OF data_kept [OF Cons.prems(1)]] show ?thesis .
  qed
qed

lemma parseFlights_empty_document: "parseFlights [] = []"
  by (simp add: parseFlights_def select_all_def)

text \<open>
  C1. When the cache is not fresh and the fetch fails (the browser raises, the response
  is not ok, or reading the page content raises), the handler answers with the cached
  flights if the cache holds any, however old, and otherwise with status 500 carrying
  the message of the failure; the cache is left as it was. A status 500 is answered
  only when the cache holds no data.
\<close>

theorem C1_stale_fallback_or_upstream_error:
  "(\<not> isFresh c (now env) CACHE_DURATION \<and> fetch_flights (render env) = Inl reason \<longrightarrow>
      response (get_departures env c) =
        (case data c of Some cached \<Rightarrow> Json cached
                      | None \<Rightarrow> Status500 ''Failed to fetch flight data'' reason)
      \<and> cache_after (get_departures env c) = c)
   \<and> (response (get_departures env c) = Status500 e d \<longrightarrow> data c = None)
   \<and> fetch_flights (Thrown msg) = Inl msg
   \<and> fetch_flights (Response False code content) =
        Inl (''Airport server responded with '' @ show_nat code)
   \<and> fetch_flights (Response True code (Inl msg)) = Inl msg"
  using get_departures_failed [of c env reason] status500_only_without_data [of env c e d]
  by (simp add: fetch_flights_cases)

theorem C1_witness:
  "\<not> isFresh \<lparr>data = Some [], lastFetch = 0\<rparr> 900001 CACHE_DURATION
   \<and> fetch_flights (Response False 503 (Inl [])) = Inl ''Airport server responded with 503''
   \<and> response (get_departures
        \<lparr>now = 900001, render = Response False 503 (Inl []), now_after = 900002\<rparr>
        \<lparr>data = Some [], lastFetch = 0\<rparr>) = Json []
   \<and> \<not> isFresh initial_cache 5 CACHE_DURATION
   \<and> response (get_departures \<lparr>now = 5, render = Thrown ''net'', now_after = 6\<rparr> initial_cache)
       = Status500 ''Failed to fetch flight data'' ''net''"
  using C1_stale_fallback_or_upstream_error
          [of "\<lparr>data = Some [], lastFetch = 0\<rparr>"
              "\<lparr>now = 900001, render = Response False 503 (Inl []), now_after = 900002\<rparr>"
              "''Airport server responded with 503''" "[]" "[]" "[]" 503 "Inl []"]
        C1_stale_fallback_or_upstream_error
          [of initial_cache "\<lparr>now = 5, render = Thrown ''net'', now_after = 6\<rparr>"
              "''net''" "[]" "[]" "''net''" 0 "Inl []"]
  by (simp add: isFresh_def CACHE_DURATION_def initial_cache_def fetch_flights_def)

text \<open>
  C6. The cache is fresh for a window exactly when it holds data and the time since the
  last fetch is below the window; the handler answers from the cache, without
  launching the browser, exactly then (for the window \<open>CACHE_DURATION\<close>). After
  the cache is set at time \<open>t\<close> it is fresh at \<open>t + windowMs - 1\<close> and not at
  \<open>t + windowMs + 1\<close>.
\<close>

theorem C6_isFresh_window:
  "isFresh c t windowMs = (data c \<noteq> None \<and> t - lastFetch c < windowMs)
   \<and> launched (get_departures env c) =
       (\<not> (data c \<noteq> None \<and> now env - lastFetch c < CACHE_DURATION))
   \<and> isFresh (cache_set records t c) (t + windowMs - 1) windowMs
   \<and> \<not> isFresh (cache_set records t c) (t + windowMs + 1) windowMs"
  by (auto simp: isFresh_def cache_set_def get_departures_def split: sum.splits option.splits)

theorem C6_witness:
  "isFresh (cache_set [] 1000 initial_cache) (1000 + CACHE_DURATION - 1) CACHE_DURATION
   \<and> \<not> isFresh (cache_set [] 1000 initial_cache) (1000 + CACHE_DURATION + 1) CACHE_DURATION
   \<and> \<not> isFresh initial_cache 1 CACHE_DURATION"
  using C6_isFresh_window [of initial_cache 1000 CACHE_DURATION
          "\<lparr>now = 1, render = Thrown [], now_after = 2\<rparr>" "[]"]
        C6_isFresh_window [of initial_cache 1 CACHE_DURATION
          "\<lparr>now = 1, render = Thrown [], now_after = 2\<rparr>" "[]"]
  by (simp add: initial_cache_def)

text \<open>
  C9. When the cache is fresh at the time of the request, the handler answers with the
  cached flights, does not launch the browser, and leaves the cache (data and time
  stamp) as it was, whatever the browser would have done.
\<close>

theorem C9_fresh_served_from_cache:
  "isFresh c (now env) CACHE_DURATION \<Longrightarrow>
   \<exists>cached. data c = Some cached
     \<and> response (get_departures env c) = Json cached
     \<and> \<not> launched (get_departures env c)
     \<and> cache_after (get_departures env c) = c
     \<and> get_departures (env\<lparr>render := r, now_after := t\<rparr>) c = get_departures env c"
  by (auto simp: get_departures_def isFresh_def)

theorem C9_witness:
  "isFresh \<lparr>data = Some [], lastFetch = 1000\<rparr> 2000 CACHE_DURATION
   \<and> get_departures \<lparr>now = 2000, render = Thrown ''down'', now_after = 2001\<rparr>
        \<lparr>data = Some [], lastFetch = 1000\<rparr>
       = \<lparr>response = Json [], cache_after = \<lparr>data = Some [], lastFetch = 1000\<rparr>,
          launched = False\<rparr>"
proof -
  have fresh: "isFresh \<lparr>data = Some [], lastFetch = 1000\<rparr>
                 (now \<lparr>now = 2000, render = Thrown ''down'', now_after = 2001\<rparr>) CACHE_DURATION"
    by (simp add: isFresh_def CACHE_DURATION_def)
  from C9_fresh_served_from_cache [OF fresh] fresh show ?thesis
    by (cases "get_departures \<lparr>now = 2000, render = Thrown ''down'', now_after = 2001\<rparr>
                 \<lparr>data = Some [], lastFetch = 1000\<rparr>") auto
qed

text \<open>
  C10. A refresh that parses no flight stores the empty list with the time stamp taken
  after the fetch. A cache holding the empty list answers with it while fresh, without
  launching the browser, and answers with it when a later fetch fails. After any
  successful refresh no later request is answered with status 500.
\<close>

theorem C10_empty_refresh_is_cached_data:
  "(\<not> isFresh c (now env) CACHE_DURATION \<and> render env = Response True code (Inr body)
      \<and> parseFlights body = [] \<longrightarrow>
      response (get_departures env c) = Json []
      \<and> data (cache_after (get_departures env c)) = Some []
      \<and> lastFetch (cache_after (get_departures env c)) = now_after env)
   \<and> (data c' = Some [] \<and> now env' - lastFetch c' < CACHE_DURATION \<longrightarrow>
      response (get_departures env' c') = Json [] \<and> \<not> launched (get_departures env' c'))
   \<and> (data c' = Some [] \<and> fetch_flights (render env') = Inl reason \<longrightarrow>
      response (get_departures env' c') = Json [])
   \<and> (\<not> isFresh c (now env) CACHE_DURATION \<and> fetch_flights (render env) = Inr flights
      \<and> r \<in> set (fst (serve envs (cache_after (get_departures env c)))) \<longrightarrow>
      r \<noteq> Status500 e d)"
proof (intro conjI impI)
  assume a: "\<not> isFresh c (now env) CACHE_DURATION \<and> render env = Response True code (Inr body)
      \<and> parseFlights body = []"
  then have "fetch_flights (render env) = Inr []"
    by (simp add: fetch_flights_def)
  with a have g: "get_departures env c =
     \<lparr>response = Json [], cache_after = cache_set [] (now_after env) c, launched = True\<rparr>"
    using get_departures_refreshed by blast
  show "response (get_departures env c) = Json []"
    and "data (cache_after (get_departures env c)) = Some []"
    and "lastFetch (cache_after (get_departures env c)) = now_after env"
    by (simp_all add: g cache_set_def)
next
  assume "data c' = Some [] \<and> now env' - lastFetch c' < CACHE_DURATION"
  then show "response (get_departures env' c') = Json []"
    and "\<not> launched (get_departures env' c')"
    by (simp_all add: get_departures_def isFresh_def)
next
  assume "data c' = Some [] \<and> fetch_flights (render env') = Inl reason"
  then show "response (get_departures env' c') = Json []"
    by (simp add: get_departures_def)
next
  assume a: "\<not> isFresh c (now env) CACHE_DURATION \<and> fetch_flights (render env) = Inr flights
      \<and> r \<in> set (fst (serve envs (cache_after (get_departures env c))))"
  then have "data (cache_after (get_departures env c)) \<noteq> None"
    by (simp add: get_departures_refreshed cache_set_def)
  with a show "r \<noteq> Status500 e d"
    using serve_no_500 by blast
qed

theorem C10_witness:
  "\<not> isFresh initial_cache 1000 CACHE_DURATION
   \<and> parseFlights [] = []
   \<and> cache_after (get_departures
        \<lparr>now = 1000, render = Response True 200 (Inr []), now_after = 1005\<rparr> initial_cache)
       = \<lparr>data = Some [], lastFetch = 1005\<rparr>
   \<and> response (get_departures \<lparr>now = 2000, render = Thrown ''down'', now_after = 2001\<rparr>
        \<lparr>data = Some [], lastFetch = 1005\<rparr>) = Json []
   \<and> \<not> launched (get_departures \<lparr>now = 2000, render = Thrown ''down'', now_after = 2001\<rparr>
        \<lparr>data = Some [], lastFetch = 1005\<rparr>)
   \<and> response (get_departures \<lparr>now = 5000000, render = Thrown ''down'', now_after = 5000001\<rparr>
        \<lparr>data = Some [], lastFetch = 1005\<rparr>) = Json []
   \<and> fst (serve [\<lparr>now = 5000000, render = Thrown ''down'', now_after = 5000001\<rparr>]
        (cache_after (get_departures
        \<lparr>now = 1000, render = Response True 200 (Inr []), now_after = 1005\<rparr> initial_cache)))
       = [Json []]
   \<and> Json [] \<noteq> Status500 [] []"
proof -
  let ?e1 = "\<lparr>now = 1000, render = Response True 200 (Inr []), now_after = 1005\<rparr>"
  let ?e2 = "\<lparr>now = 2000, render = Thrown ''down'', now_after = 2001\<rparr>"
  let ?e3 = "\<lparr>now = 5000000, render = Thrown ''down'', now_after = 5000001\<rparr>"
  let ?c1 = "\<lparr>data = Some [], lastFetch = 1005\<rparr>"
  have stale: "\<not> isFresh initial_cache (now ?e1) CACHE_DURATION"
    by (simp add: isFresh_def initial_cache_def)
  have rend: "render ?e1 = Response True 200 (Inr [])" by simp
  have fresh2: "data ?c1 = Some [] \<and> now ?e2 - lastFetch ?c1 < CACHE_DURATION"
    by (simp add: CACHE_DURATION_def)
  have fail3: "data ?c1 = Some [] \<and> fetch_flights (render ?e3) = Inl ''down''"
    by (simp add: fetch_flights_def)
  note T2 = C10_empty_refresh_is_cached_data
      [where c = initial_cache and env = ?e1 and code = 200 and body = "[]"
         and c' = ?c1 and env' = ?e2 and reason = "''down''" and flights = "[]"
         and r = "Json []" and envs = "[?e3]" and e = "[]" and d = "[]"]
  note T3 = C10_empty_refresh_is_cached_data
      [where c = initial_cache and env = ?e1 and code = 200 and body = "[]"
         and c' = ?c1 and env' = ?e3 and reason = "''down''" and flights = "[]"
         and r = "Json []" and envs = "[?e3]" and e = "[]" and d = "[]"]
  from T2 stale rend parseFlights_empty_document
  have r1: "data (cache_after (get_departures ?e1 initial_cache)) = Some []
     \<and> lastFetch (cache_after (get_departures ?e1 initial_cache)) = now_after ?e1"
    by blast
  then have c1: "cache_after (get_departures ?e1 initial_cache) = ?c1"
    by (cases "cache_after (get_departures ?e1 initial_cache)") simp
  from T2 fresh2 have a: "response (get_departures ?e2 ?c1) = Json [] \<and> \<not> launched (get_departures ?e2 ?c1)"
    by blast
  from T3 fail3 have b: "response (get_departures ?e3 ?c1) = Json []"
    by blast
  have s: "fst (serve [?e3] (cache_after (get_departures ?e1 initial_cache))) = [Json []]"
    by (simp add: c1 b)
  have ok1: "fetch_flights (render ?e1) = Inr []"
    by (simp add: fetch_flights_def parseFlights_empty_document)
  from s have mem: "Json [] \<in> set (fst (serve [?e3] (cache_after (get_departures ?e1 initial_cache))))"
    by simp
  from T2 stale ok1 mem have d: "Json [] \<noteq> Status500 [] []"
    by blast
  from stale c1 a b s d show ?thesis
    by (simp add: parseFlights_empty_document)
qed

section \<open>TimeDelay\<close>

lemma is_digit_not_colon: "is_digit c \<Longrightarrow> c \<noteq> CHR '':''"
  by (auto simp: is_digit_def)

lemma time_pattern_shape:
  "time_pattern m \<Longrightarrow>
     (\<exists>a d e. m = [a, CHR '':'', d, e] \<and> is_digit a \<and> is_digit d \<and> is_digit e)
   \<or> (\<exists>a b d e. m = [a, b, CHR '':'', d, e] \<and> is_digit a \<and> is_digit b \<and> is_digit d \<and> is_digit e)"
  by (erule time_pattern.elims) auto

lemma minutes_of_time_pattern:
  assumes "time_pattern m"
  shows "minutes_of m = Num (clock_minutes m)"
  using time_pattern_shape [OF assms]
  by (auto simp: minutes_of_def number_at_def js_index_def js_Number_def Let_def
      dest: is_digit_not_colon)

lemma calculateDelayMinutes_time_pattern:
  assumes "time_pattern s" and "time_pattern e"
  shows "calculateDelayMinutes s e =
     Num (if s = e then 0
          else max 0 ((if clock_minutes e < clock_minutes s - 12 * 60
                       then clock_minutes e + 24 * 60 else clock_minutes e)
                      - clock_minutes s))"
  by (simp add: calculateDelayMinutes_def minutes_of_time_pattern [OF assms(1)]
      minutes_of_time_pattern [OF assms(2)] Let_def)


lemma match_time_at_SomeD:
  assumes "match_time_at s = Some m"
  shows "time_pattern m \<and> (\<exists>r. s = m @ r)"
proof (cases "match_two s")
  case (Some m')
  with assms have "m' = m" by (simp add: match_time_at_def)
  with Some show ?thesis
    by (auto simp: match_two_def split: list.splits if_splits)
next
  case None
  with assms have "match_one s = Some m" by (simp add: match_time_at_def)
  then show ?thesis
    by (auto simp: match_one_def split: list.splits if_splits)
qed

lemma match_time_at_prefix:
  assumes "time_pattern m"
  shows "match_time_at (m @ q) = Some m"
  using time_pattern_shape [OF assms]
  by (auto simp: match_time_at_def match_two_def match_one_def
      dest: is_digit_not_colon split: list.splits)

lemma time_pattern_length: "time_pattern m \<Longrightarrow> 4 \<le> length m"
  by (drule time_pattern_shape) auto

lemma match_all_step_Some:
  assumes "match_time_at (c # cs) = Some m"
  shows "match_all (c # cs) = m # match_all (drop (length m) (c # cs))"
proof -
  from match_time_at_SomeD [OF assms] have "4 \<le> length m"
    by (simp add: time_pattern_length)
  then obtain k where "length m = Suc k" by (cases "length m") auto
  with assms show ?thesis by simp
qed

text \<open>\<open>s = p @ m @ q\<close> with \<open>time_pattern m\<close> is an occurrence of the pattern in
  \<open>s\<close> at offset \<open>length p\<close>.\<close>

lemma match_all_Nil_iff:
  "match_all s = [] \<longleftrightarrow> \<not> (\<exists>p m q. s = p @ m @ q \<and> time_pattern m)"
proof (induction s rule: match_all.induct)
  case 1
  show ?case by auto
next
  case (2 c cs)
  show ?case
  proof (cases "match_time_at (c # cs)")
    case (Some m)
    from match_time_at_SomeD [OF Some] obtain r where "time_pattern m" "c # cs = m @ r"
      by blast
    then have "c # cs = [] @ m @ r \<and> time_pattern m" by simp
    then have "\<exists>p m q. c # cs = p @ m @ q \<and> time_pattern m" by blast
    moreover have "match_all (c # cs) \<noteq> []" using Some by simp
    ultimately show ?thesis by blast
  next
    case None
    then have eq: "match_all (c # cs) = match_all cs" by simp
    have "(\<exists>p m q. c # cs = p @ m @ q \<and> time_pattern m)
          \<longleftrightarrow> (\<exists>p m q. cs = p @ m @ q \<and> time_pattern m)"
    proof
      assume "\<exists>p m q. c # cs = p @ m @ q \<and> time_pattern m"
      then obtain p m q where pm: "c # cs = p @ m @ q" "time_pattern m" by blast
      show "\<exists>p m q. cs = p @ m @ q \<and> time_pattern m"
      proof (cases p)
        case Nil
        with pm have "match_time_at (c # cs) = Some m"
          using match_time_at_prefix [of m q] by simp
        with None show ?thesis by simp
      next
        case (Cons x p')
        with pm have "cs = p' @ m @ q" by simp
        with pm(2) show ?thesis by blast
      qed
    next
      assume "\<exists>p m q. cs = p @ m @ q \<and> time_pattern m"
      then obtain p m q where "cs = p @ m @ q" "time_pattern m" by blast
      then have "c # cs = (c # p) @ m @ q \<and> time_pattern m" by simp
      then show "\<exists>p m q. c # cs = p @ m @ q \<and> time_pattern m" by blast
    qed
    with eq "2.IH"(1) [OF None] show ?thesis by simp
  qed
qed

lemma match_all_Cons_leftmost:
  "match_all s = m # ms \<Longrightarrow>
   \<exists>g r. s = g @ m @ r \<and> match_all r = ms \<and> time_pattern m
     \<and> (\<forall>p m' q. s = p @ m' @ q \<and> time_pattern m' \<longrightarrow> length g \<le> length p)"
proof (induction s rule: match_all.induct)
  case 1
  then show ?case by simp
next
  case (2 c cs)
  show ?case
  proof (cases "match_time_at (c # cs)")
    case (Some m0)
    from match_time_at_SomeD [OF Some] obtain r where r: "time_pattern m0" "c # cs = m0 @ r"
      by blast
    have st: "match_all (c # cs) = m0 # match_all (drop (length m0) (c # cs))"
      by (rule match_all_step_Some [OF Some])
    from "2.prems" have "m0 # match_all (drop (length m0) (c # cs)) = m # ms"
      unfolding st .
    then have m0: "m0 = m" and rest: "match_all (drop (length m0) (c # cs)) = ms"
      by blast+
    have "drop (length m0) (m0 @ r) = r" by simp
    with r(2) have "drop (length m0) (c # cs) = r" by (simp only:)
    with rest have "match_all r = ms" by (simp only:)
    with r m0 have "c # cs = [] @ m @ r \<and> match_all r = ms \<and> time_pattern m" by simp
    then show ?thesis by (metis list.size(3) le0)
  next
    case None
    with "2.prems" have "match_all cs = m # ms" by simp
    from "2.IH"(1) [OF None this] obtain g r where
      gr: "cs = g @ m @ r" "match_all r = ms" "time_pattern m"
      and left: "\<forall>p m' q. cs = p @ m' @ q \<and> time_pattern m' \<longrightarrow> length g \<le> length p"
      by blast
    have "\<forall>p m' q. c # cs = p @ m' @ q \<and> time_pattern m' \<longrightarrow> length (c # g) \<le> length p"
    proof (intro allI impI)
      fix p m' q
      assume a: "c # cs = p @ m' @ q \<and> time_pattern m'"
      show "length (c # g) \<le> length p"
      proof (cases p)
        case Nil
        with a have "match_time_at (c # cs) = Some m'"
          using match_time_at_prefix [of m' q] by simp
        with None show ?thesis by simp
      next
        case (Cons x p')
        with a have "cs = p' @ m' @ q \<and> time_pattern m'" by simp
        with left have "length g \<le> length p'" by blast
        with Cons show ?thesis by simp
      qed
    qed
    moreover from gr have "c # cs = (c # g) @ m @ r" by simp
    ultimately show ?thesis using gr(2,3) by blast
  qed
qed

lemma parseTimeAndDelay_cases:
  "parseTimeAndDelay s =
     (case match_all s of
        [] \<Rightarrow> \<lparr>td_std = ''--:--'', td_etd = ''--:--'', td_delayMins = Num 0\<rparr>
      | [m] \<Rightarrow> \<lparr>td_std = m, td_etd = m, td_delayMins = Num 0\<rparr>
      | m1 # m2 # ms \<Rightarrow>
          \<lparr>td_std = m1, td_etd = m2, td_delayMins = calculateDelayMinutes m1 m2\<rparr>)"
  by (simp add: parseTimeAndDelay_def js_match_times_def calculateDelayMinutes_def
      split: list.splits)


lemma match_all_first_two:
  assumes "match_all s = m1 # m2 # ms"
  shows "time_pattern m1 \<and> time_pattern m2"
proof -
  from match_all_Cons_leftmost [OF assms] obtain r where
    "match_all r = m2 # ms" "time_pattern m1" by blast
  moreover from match_all_Cons_leftmost [OF this(1)] have "time_pattern m2" by blast
  ultimately show ?thesis by simp
qed

lemma match_all_examples:
  "match_all ''n/a'' = []"
  "match_all ''ETD 9:05'' = [''9:05'']"
  "match_all ''10:15 11:20 12:00'' = [''10:15'', ''11:20'', ''12:00'']"
  by (simp_all add: match_time_at_def match_two_def match_one_def is_digit_def)

text \<open>
  C2. For two texts of the shape H:MM or HH:MM, \<^verbatim>\<open>calculateDelayMinutes\<close> converts
  both to minutes since midnight; equal texts give 0; an estimated time more than 12 hours
  before the scheduled one has 24 hours added before the difference is taken; the result
  is clamped at 0. So an estimated time not before the scheduled one gives the difference
  in minutes, and 23:50 with 00:10 gives 20.
\<close>

theorem C2_calculateDelayMinutes:
  "time_pattern scheduled \<and> time_pattern estimated \<longrightarrow>
     minutes_of scheduled = Num (clock_minutes scheduled)
   \<and> minutes_of estimated = Num (clock_minutes estimated)
   \<and> (scheduled = estimated \<longrightarrow> calculateDelayMinutes scheduled estimated = Num 0)
   \<and> calculateDelayMinutes scheduled estimated =
       Num (if scheduled = estimated then 0
            else max 0 ((if clock_minutes estimated < clock_minutes scheduled - 12 * 60
                         then clock_minutes estimated + 24 * 60
                         else clock_minutes estimated)
                        - clock_minutes scheduled))
   \<and> (clock_minutes scheduled \<le> clock_minutes estimated \<longrightarrow>
        calculateDelayMinutes scheduled estimated =
          Num (clock_minutes estimated - clock_minutes scheduled))
   \<and> calculateDelayMinutes ''23:50'' ''00:10'' = Num 20"
proof (intro impI)
  assume "time_pattern scheduled \<and> time_pattern estimated"
  then have s: "time_pattern scheduled" and e: "time_pattern estimated" by simp_all
  have tp: "time_pattern ''23:50''" "time_pattern ''00:10''"
    by (simp_all add: is_digit_def)
  have "calculateDelayMinutes ''23:50'' ''00:10'' = Num 20"
    by (simp add: calculateDelayMinutes_time_pattern [OF tp] digit_val_def)
  then show "minutes_of scheduled = Num (clock_minutes scheduled)
   \<and> minutes_of estimated = Num (clock_minutes estimated)
   \<and> (scheduled = estimated \<longrightarrow> calculateDelayMinutes scheduled estimated = Num 0)
   \<and> calculateDelayMinutes scheduled estimated =
       Num (if scheduled = estimated then 0
            else max 0 ((if clock_minutes estimated < clock_minutes scheduled - 12 * 60
                         then clock_minutes estimated + 24 * 60
                         else clock_minutes estimated)
                        - clock_minutes scheduled))
   \<and> (clock_minutes scheduled \<le> clock_minutes estimated \<longrightarrow>
        calculateDelayMinutes scheduled estimated =
          Num (clock_minutes estimated - clock_minutes scheduled))
   \<and> calculateDelayMinutes ''23:50'' ''00:10'' = Num 20"
    by (simp add: calculateDelayMinutes_time_pattern [OF s e] minutes_of_time_pattern [OF s]
        minutes_of_time_pattern [OF e] calculateDelayMinutes_def)
qed

theorem C2_witness:
  "time_pattern ''23:50'' \<and> time_pattern ''00:10'' \<and> time_pattern ''9:05'' \<and> time_pattern ''10:30''
   \<and> clock_minutes ''23:50'' = 1430 \<and> clock_minutes ''00:10'' = 10
   \<and> clock_minutes ''9:05'' = 545 \<and> clock_minutes ''10:30'' = 630
   \<and> calculateDelayMinutes ''23:50'' ''00:10'' = Num 20
   \<and> calculateDelayMinutes ''9:05'' ''10:30'' = Num 85
   \<and> calculateDelayMinutes ''10:30'' ''9:05'' = Num 0
   \<and> calculateDelayMinutes ''10:30'' ''10:30'' = Num 0"
  using C2_calculateDelayMinutes [of "''23:50''" "''00:10''"]
        C2_calculateDelayMinutes [of "''9:05''" "''10:30''"]
        C2_calculateDelayMinutes [of "''10:30''" "''9:05''"]
        C2_calculateDelayMinutes [of "''10:30''" "''10:30''"]
  by (simp add: is_digit_def digit_val_def)

text \<open>
  C3. \<^verbatim>\<open>parseTimeAndDelay\<close> scans for the texts of one or two digits, a colon and two
  digits: there is no match exactly when the pattern occurs nowhere in the input, and
  otherwise the first match is the leftmost occurrence and the further matches are those
  of the text after it. No match gives the two sentinels and delay 0; a single match is
  both times, with delay 0; with two or more matches the first is the scheduled and the
  second the estimated time, the later ones unused.
\<close>

theorem C3_parseTimeAndDelay:
  "(match_all rawText = [] \<longleftrightarrow> \<not> (\<exists>p m q. rawText = p @ m @ q \<and> time_pattern m))
   \<and> (match_all rawText = m # ms \<longrightarrow>
        (\<exists>g r. rawText = g @ m @ r \<and> match_all r = ms \<and> time_pattern m
           \<and> (\<forall>p m' q. rawText = p @ m' @ q \<and> time_pattern m' \<longrightarrow> length g \<le> length p)))
   \<and> (match_all rawText = [] \<longrightarrow>
        parseTimeAndDelay rawText =
          \<lparr>td_std = ''--:--'', td_etd = ''--:--'', td_delayMins = Num 0\<rparr>)
   \<and> (match_all rawText = [m] \<longrightarrow>
        parseTimeAndDelay rawText = \<lparr>td_std = m, td_etd = m, td_delayMins = Num 0\<rparr>)
   \<and> (match_all rawText = m1 # m2 # later \<longrightarrow>
        parseTimeAndDelay rawText =
          \<lparr>td_std = m1, td_etd = m2, td_delayMins = calculateDelayMinutes m1 m2\<rparr>)"
proof (intro conjI)
  show "match_all rawText = [] \<longleftrightarrow> \<not> (\<exists>p m q. rawText = p @ m @ q \<and> time_pattern m)"
    by (rule match_all_Nil_iff)
  show "match_all rawText = m # ms \<longrightarrow>
        (\<exists>g r. rawText = g @ m @ r \<and> match_all r = ms \<and> time_pattern m
           \<and> (\<forall>p m' q. rawText = p @ m' @ q \<and> time_pattern m' \<longrightarrow> length g \<le> length p))"
    using match_all_Cons_leftmost [of rawText m ms] by blast
qed (simp_all add: parseTimeAndDelay_cases)

theorem C3_witness:
  "match_all ''n/a'' = []
   \<and> parseTimeAndDelay ''n/a'' = \<lparr>td_std = ''--:--'', td_etd = ''--:--'', td_delayMins = Num 0\<rparr>
   \<and> \<not> (\<exists>p m q. ''n/a'' = p @ m @ q \<and> time_pattern m)
   \<and> match_all ''ETD 9:05'' = [''9:05'']
   \<and> parseTimeAndDelay ''ETD 9:05'' = \<lparr>td_std = ''9:05'', td_etd = ''9:05'', td_delayMins = Num 0\<rparr>
   \<and> (\<exists>g r. ''ETD 9:05'' = g @ ''9:05'' @ r \<and> match_all r = [])
   \<and> match_all ''10:15 11:20 12:00'' = [''10:15'', ''11:20'', ''12:00'']
   \<and> parseTimeAndDelay ''10:15 11:20 12:00'' =
        \<lparr>td_std = ''10:15'', td_etd = ''11:20'',
         td_delayMins = calculateDelayMinutes ''10:15'' ''11:20''\<rparr>"
proof -
  note a = C3_parseTimeAndDelay [where rawText = "''n/a''" and m = "[]" and ms = "[]"
      and ?m1.0 = "[]" and ?m2.0 = "[]" and later = "[]"]
  note b = C3_parseTimeAndDelay [where rawText = "''ETD 9:05''" and m = "''9:05''" and ms = "[]"
      and ?m1.0 = "[]" and ?m2.0 = "[]" and later = "[]"]
  note c = C3_parseTimeAndDelay [where rawText = "''10:15 11:20 12:00''" and m = "''10:15''"
      and ms = "[''11:20'', ''12:00'']"
      and ?m1.0 = "''10:15''" and ?m2.0 = "''11:20''" and later = "[''12:00'']"]
  from a match_all_examples(1)
  have a': "parseTimeAndDelay ''n/a'' = \<lparr>td_std = ''--:--'', td_etd = ''--:--'', td_delayMins = Num 0\<rparr>
      \<and> \<not> (\<exists>p m q. ''n/a'' = p @ m @ q \<and> time_pattern m)"
    by blast
  from b match_all_examples(2)
  have b': "parseTimeAndDelay ''ETD 9:05'' = \<lparr>td_std = ''9:05'', td_etd = ''9:05'', td_delayMins = Num 0\<rparr>
      \<and> (\<exists>g r. ''ETD 9:05'' = g @ ''9:05'' @ r \<and> match_all r = [])"
    by blast
  from c match_all_examples(3)
  have c': "parseTimeAndDelay ''10:15 11:20 12:00'' =
        \<lparr>td_std = ''10:15'', td_etd = ''11:20'',
         td_delayMins = calculateDelayMinutes ''10:15'' ''11:20''\<rparr>"
    by blast
  from a' b' c' match_all_examples show ?thesis by simp
qed

section \<open>AirlineResolver\<close>

lemma takeWhile_neq_first: "x \<notin> set xs \<Longrightarrow> takeWhile (\<lambda>c. c \<noteq> x) (xs @ x # ys) = xs"
  by (induction xs) auto

lemma js_split_nonempty: "js_split sep s \<noteq> []"
  by (induction s) (simp_all add: Let_def)

lemma hd_js_split: "hd (js_split sep s) = takeWhile (\<lambda>c. c \<noteq> sep) s"
  by (induction s) (simp_all add: Let_def)

lemma js_split_no_sep: "sep \<notin> set s \<Longrightarrow> js_split sep s = [s]"
  by (induction s) (auto simp: Let_def)

lemma js_split_sep: "sep \<in> set s \<Longrightarrow> tl (js_split sep s) \<noteq> []"
  by (induction s) (auto simp: Let_def js_split_nonempty)

lemma last_js_split: "last (js_split sep s) = rev (takeWhile (\<lambda>c. c \<noteq> sep) (rev s))"
proof (induction s)
  case Nil
  show ?case by simp
next
  case (Cons c cs)
  show ?case
  proof (cases "sep \<in> set cs")
    case True
    then have "last (js_split sep (c # cs)) = last (js_split sep cs)"
      using js_split_sep [OF True] js_split_nonempty [of sep cs]
      by (cases "js_split sep cs") (auto simp: Let_def)
    moreover from True have "takeWhile (\<lambda>c. c \<noteq> sep) (rev cs @ [c]) = takeWhile (\<lambda>c. c \<noteq> sep) (rev cs)"
      by (intro takeWhile_append1 [where x = sep]) auto
    ultimately show ?thesis using Cons.IH by simp
  next
    case False
    then have "takeWhile (\<lambda>c. c \<noteq> sep) (rev cs @ [c]) = rev cs @ takeWhile (\<lambda>c. c \<noteq> sep) [c]"
      by (intro takeWhile_append2) auto
    with False show ?thesis
      by (simp add: js_split_no_sep Let_def)
  qed
qed

lemma airline_try_string:
  "airline_try (JStr s) =
     Inr (or_sentinel (replace_hyphens
            (before_first CHR ''_'' (before_first CHR ''.'' (final_segment s)))))"
proof -
  have p: "js_pop (js_split CHR ''/'' s) = Some (final_segment s)"
    by (simp add: js_pop_def js_split_nonempty last_js_split final_segment_def)
  have i: "\<And>sep t. js_index (js_split sep t) 0 = Some (before_first sep t)"
    using js_split_nonempty
    by (simp add: js_index_def before_first_def hd_js_split [symmetric] hd_conv_nth)
  show ?thesis
    by (simp add: airline_try_def call_split_def p i or_sentinel_def)
qed

lemma getAirlineNameFromUrl_first_dot:
  "getAirlineNameFromUrl url = first_dot_resolveAirlineName url"
proof (cases url)
  case (JStr s)
  then show ?thesis
    by (simp add: getAirlineNameFromUrl_def first_dot_resolveAirlineName_def airline_try_string)
qed (simp_all add: getAirlineNameFromUrl_def first_dot_resolveAirlineName_def
      airline_try_def call_split_def)

lemma strip_extension_at_most_one_dot:
  assumes "dot_count seg \<le> 1"
  shows "before_first CHR ''.'' seg = strip_extension seg"
proof (cases "CHR ''.'' \<in> set seg")
  case False
  then show ?thesis by (auto simp: strip_extension_def before_first_def)
next
  case True
  then obtain a b where ab: "seg = a @ CHR ''.'' # b" "CHR ''.'' \<notin> set a"
    by (auto dest: split_list_first)
  with assms have "filter (\<lambda>c. c = CHR ''.'') b = []"
    by (simp add: dot_count_def)
  then have b: "CHR ''.'' \<notin> set b"
    by (auto simp: filter_empty_conv)
  have "dropWhile (\<lambda>c. c \<noteq> CHR ''.'') (rev b @ CHR ''.'' # rev a) = CHR ''.'' # rev a"
    using b by (auto simp: dropWhile_append3)
  with ab True have "strip_extension seg = a"
    by (simp add: strip_extension_def)
  moreover from ab have "before_first CHR ''.'' seg = a"
    by (simp add: before_first_def takeWhile_neq_first)
  ultimately show ?thesis by simp
qed

lemma final_segment_after_slash:
  "CHR ''/'' \<notin> set seg \<Longrightarrow> final_segment (p @ CHR ''/'' # seg) = seg"
proof -
  assume a: "CHR ''/'' \<notin> set seg"
  have "takeWhile (\<lambda>c. c \<noteq> CHR ''/'') (rev seg @ CHR ''/'' # rev p)
        = takeWhile (\<lambda>c. c \<noteq> CHR ''/'') (rev seg)"
    by (rule takeWhile_tail) simp
  also from a have "\<dots> = rev seg"
    by (induction seg) auto
  finally show ?thesis by (simp add: final_segment_def)
qed

lemma or_sentinel_nonempty: "or_sentinel name \<noteq> []"
  by (simp add: or_sentinel_def)

text \<open>
  C4, as the specification states it: the name is that of the final path segment with
  its file extension stripped. It fails where the final segment has a dot before its
  extension: \<^verbatim>\<open>split('.')[0]\<close> keeps only what precedes the first dot, here
  \<^verbatim>\<open>go\<close> where stripping the extension leaves \<^verbatim>\<open>go.first\<close>.
\<close>

theorem C4_counterexample:
  "getAirlineNameFromUrl (JStr ''img/go.first_logo.png'')
   \<noteq> spec_resolveAirlineName (JStr ''img/go.first_logo.png'')"
  by (simp add: getAirlineNameFromUrl_first_dot first_dot_resolveAirlineName_def
      spec_resolveAirlineName_def final_segment_def strip_extension_def before_first_def
      replace_hyphens_def or_sentinel_def)

text \<open>
  C4, amended. \<^verbatim>\<open>getAirlineNameFromUrl\<close> returns \<^verbatim>\<open>Other\<close> for an absent, empty
  or non-string argument; for a string it takes the final path segment, keeps the part
  before its first dot, of that the part before the first underscore, and replaces
  hyphens by spaces, with \<^verbatim>\<open>Other\<close> when the result is empty. When the final
  segment has at most one dot this is the segment with its extension stripped. A
  reference ending in \<^verbatim>\<open>/indigo_logo.png\<close> gives \<^verbatim>\<open>indigo\<close>, one ending in
  \<^verbatim>\<open>/air-india_logo.png\<close> gives \<^verbatim>\<open>air india\<close>; the result is never empty.
\<close>

theorem C4_getAirlineNameFromUrl:
  "getAirlineNameFromUrl url = first_dot_resolveAirlineName url
   \<and> (dot_count (final_segment s) \<le> 1 \<longrightarrow>
        getAirlineNameFromUrl (JStr s) = spec_resolveAirlineName (JStr s))
   \<and> ((\<forall>t. url \<noteq> JStr t) \<longrightarrow> getAirlineNameFromUrl url = ''Other'')
   \<and> getAirlineNameFromUrl JUndefined = ''Other''
   \<and> getAirlineNameFromUrl (JStr '''') = ''Other''
   \<and> getAirlineNameFromUrl (JStr (p @ ''/indigo_logo.png'')) = ''indigo''
   \<and> getAirlineNameFromUrl (JStr (p @ ''/air-india_logo.png'')) = ''air india''
   \<and> getAirlineNameFromUrl url \<noteq> ''''"
proof (intro conjI impI)
  show "getAirlineNameFromUrl url = first_dot_resolveAirlineName url"
    by (rule getAirlineNameFromUrl_first_dot)
  show "getAirlineNameFromUrl (JStr s) = spec_resolveAirlineName (JStr s)"
    if "dot_count (final_segment s) \<le> 1"
    by (simp add: getAirlineNameFromUrl_first_dot first_dot_resolveAirlineName_def
        spec_resolveAirlineName_def strip_extension_at_most_one_dot [OF that])
  show "getAirlineNameFromUrl url = ''Other''" if "\<forall>t. url \<noteq> JStr t"
    using that
    by (cases url) (simp_all add: getAirlineNameFromUrl_first_dot first_dot_resolveAirlineName_def)
  show "getAirlineNameFromUrl JUndefined = ''Other''"
    by (simp add: getAirlineNameFromUrl_def)
  show "getAirlineNameFromUrl (JStr '''') = ''Other''"
    by (simp add: getAirlineNameFromUrl_def)
  have "final_segment (p @ CHR ''/'' # ''indigo_logo.png'') = ''indigo_logo.png''"
    by (rule final_segment_after_slash) simp
  then show "getAirlineNameFromUrl (JStr (p @ ''/indigo_logo.png'')) = ''indigo''"
    by (simp add: getAirlineNameFromUrl_first_dot first_dot_resolveAirlineName_def
        before_first_def replace_hyphens_def or_sentinel_def)
  have "final_segment (p @ CHR ''/'' # ''air-india_logo.png'') = ''air-india_logo.png''"
    by (rule final_segment_after_slash) simp
  then show "getAirlineNameFromUrl (JStr (p @ ''/air-india_logo.png'')) = ''air india''"
    by (simp add: getAirlineNameFromUrl_first_dot first_dot_resolveAirlineName_def
        before_first_def replace_hyphens_def or_sentinel_def)
  show "getAirlineNameFromUrl url \<noteq> ''''"
    by (cases url)
       (simp_all add: getAirlineNameFromUrl_first_dot first_dot_resolveAirlineName_def
          or_sentinel_def)
qed

theorem C4_witness:
  "dot_count (final_segment ''https://www.hyderabad.aero/images/air-india_logo.png'') \<le> 1
   \<and> getAirlineNameFromUrl (JStr ''https://www.hyderabad.aero/images/air-india_logo.png'') = ''air india''
   \<and> spec_resolveAirlineName (JStr ''https://www.hyderabad.aero/images/air-india_logo.png'') = ''air india''
   \<and> (\<forall>t. JNum 7 \<noteq> JStr t) \<and> getAirlineNameFromUrl (JNum 7) = ''Other''"
  using C4_getAirlineNameFromUrl [of "JNum 7" "''https://www.hyderabad.aero/images/air-india_logo.png''"
          "''https://www.hyderabad.aero/images''"]
  by (simp add: final_segment_def dot_count_def spec_resolveAirlineName_def
      strip_extension_def before_first_def replace_hyphens_def or_sentinel_def
      first_dot_resolveAirlineName_def)

section \<open>FlightTableParser\<close>


lemma cell_text_in_range: "i < length cols \<Longrightarrow> cell_text cols i = trim (text_of (cols ! i))"
  by (simp add: cell_text_def js_index_def wrap_def sel_text_def)

lemma process_row_eq:
  "process_row flights row =
     (if qualifying_row row then flights @ [record_of_row row] else flights)"
proof (cases "length (find_in ''td'' row) < 7")
  case True
  then show ?thesis by (simp add: process_row_def qualifying_row_def)
next
  case False
  then have len: "7 \<le> length (find_in ''td'' row)" by simp
  then have t: "\<And>i. i < 7 \<Longrightarrow> cell_text (find_in ''td'' row) i = trim (text_of (find_in ''td'' row ! i))"
    by (simp add: cell_text_in_range)
  from len have "find_in ''td'' row \<noteq> []" by auto
  then have img: "sel_find ''img'' (wrap (js_index (find_in ''td'' row) 0))
      = find_in ''img'' (find_in ''td'' row ! 0)"
    by (simp add: js_index_def wrap_def sel_find_def)
  from False show ?thesis
    by (simp add: process_row_def qualifying_row_def record_of_row_def t img Let_def)
qed


lemma foldl_process_row:
  "foldl process_row flights rows = flights @ map record_of_row (filter qualifying_row rows)"
  by (induction rows arbitrary: flights) (simp_all add: process_row_eq)

lemma parseFlights_map_filter:
  "parseFlights html = map record_of_row (filter qualifying_row (select_all ''tr'' html))"
  by (simp add: parseFlights_def foldl_process_row)

lemma sentinel_not_time_pattern: "\<not> time_pattern ''--:--''"
  by (simp add: is_digit_def)

lemma parseTimeAndDelay_invariant:
  "(\<exists>d. td_delayMins (parseTimeAndDelay s) = Num d \<and> 0 \<le> d)
   \<and> (td_std (parseTimeAndDelay s) = ''--:--'' \<or> td_etd (parseTimeAndDelay s) = ''--:--'' \<longrightarrow>
        match_all s = [])
   \<and> (match_all s = [] \<longrightarrow>
        parseTimeAndDelay s = \<lparr>td_std = ''--:--'', td_etd = ''--:--'', td_delayMins = Num 0\<rparr>)"
proof (cases "match_all s")
  case Nil
  then show ?thesis by (simp add: parseTimeAndDelay_cases)
next
  case (Cons m1 ms)
  note outer = Cons
  from match_all_Cons_leftmost [OF Cons] have tp1: "time_pattern m1" by blast
  have n1: "m1 \<noteq> ''--:--''"
  proof
    assume "m1 = ''--:--''"
    with tp1 have "time_pattern ''--:--''" by (simp only:)
    with sentinel_not_time_pattern show False ..
  qed
  show ?thesis
  proof (cases ms)
    case Nil
    with outer have p: "parseTimeAndDelay s = \<lparr>td_std = m1, td_etd = m1, td_delayMins = Num 0\<rparr>"
      by (simp add: parseTimeAndDelay_cases)
    from n1 outer show ?thesis by (simp add: p)
  next
    case (Cons m2 ms')
    with outer have m: "match_all s = m1 # m2 # ms'" by simp
    from match_all_first_two [OF m] have tp: "time_pattern m1" "time_pattern m2" by simp_all
    have n2: "m2 \<noteq> ''--:--''"
    proof
      assume "m2 = ''--:--''"
      with tp(2) have "time_pattern ''--:--''" by (simp only:)
      with sentinel_not_time_pattern show False ..
    qed
    from m have p: "parseTimeAndDelay s =
        \<lparr>td_std = m1, td_etd = m2, td_delayMins = calculateDelayMinutes m1 m2\<rparr>"
      by (simp add: parseTimeAndDelay_cases)
    have "\<exists>d. calculateDelayMinutes m1 m2 = Num d \<and> 0 \<le> d"
      by (simp add: calculateDelayMinutes_time_pattern [OF tp])
    with n1 n2 m show ?thesis by (simp add: p)
  qed
qed

lemma getAirlineNameFromUrl_nonempty: "getAirlineNameFromUrl url \<noteq> []"
  by (cases url)
     (simp_all add: getAirlineNameFromUrl_first_dot first_dot_resolveAirlineName_def
        or_sentinel_def)

lemma record_of_row_invariant:
  "(\<exists>d. delayMins (record_of_row row) = Num d \<and> 0 \<le> d)
   \<and> airlineName (record_of_row row) \<noteq> []
   \<and> (std (record_of_row row) = ''--:--'' \<or> etd (record_of_row row) = ''--:--'' \<longrightarrow>
        std (record_of_row row) = ''--:--'' \<and> etd (record_of_row row) = ''--:--''
        \<and> delayMins (record_of_row row) = Num 0)
   \<and> (match_all (trim (text_of (find_in ''td'' row ! 4))) = [] \<longrightarrow>
        std (record_of_row row) = ''--:--'' \<and> etd (record_of_row row) = ''--:--''
        \<and> delayMins (record_of_row row) = Num 0)"
proof -
  let ?t = "parseTimeAndDelay (trim (text_of (find_in ''td'' row ! 4)))"
  have f: "delayMins (record_of_row row) = td_delayMins ?t"
    "std (record_of_row row) = td_std ?t" "etd (record_of_row row) = td_etd ?t"
    by (simp_all add: record_of_row_def Let_def)
  have a: "airlineName (record_of_row row) \<noteq> []"
    by (simp add: record_of_row_def Let_def getAirlineNameFromUrl_nonempty)
  note inv = parseTimeAndDelay_invariant [of "trim (text_of (find_in ''td'' row ! 4))"]
  from inv have d: "\<exists>d. td_delayMins ?t = Num d \<and> 0 \<le> d" by (rule conjunct1)
  from inv have m: "td_std ?t = ''--:--'' \<or> td_etd ?t = ''--:--'' \<longrightarrow>
      match_all (trim (text_of (find_in ''td'' row ! 4))) = []"
    by (rule conjunct2 [THEN conjunct1])
  from inv have z: "match_all (trim (text_of (find_in ''td'' row ! 4))) = [] \<longrightarrow>
      ?t = \<lparr>td_std = ''--:--'', td_etd = ''--:--'', td_delayMins = Num 0\<rparr>"
    by (rule conjunct2 [THEN conjunct2])
  have z': "match_all (trim (text_of (find_in ''td'' row ! 4))) = [] \<longrightarrow>
      td_std ?t = ''--:--'' \<and> td_etd ?t = ''--:--'' \<and> td_delayMins ?t = Num 0"
  proof
    assume "match_all (trim (text_of (find_in ''td'' row ! 4))) = []"
    with z have e: "?t = \<lparr>td_std = ''--:--'', td_etd = ''--:--'', td_delayMins = Num 0\<rparr>" ..
    show "td_std ?t = ''--:--'' \<and> td_etd ?t = ''--:--'' \<and> td_delayMins ?t = Num 0"
      by (simp only: e time_delay.simps simp_thms)
  qed
  have s: "td_std ?t = ''--:--'' \<or> td_etd ?t = ''--:--'' \<longrightarrow>
      td_std ?t = ''--:--'' \<and> td_etd ?t = ''--:--'' \<and> td_delayMins ?t = Num 0"
  proof
    assume "td_std ?t = ''--:--'' \<or> td_etd ?t = ''--:--''"
    with m have "match_all (trim (text_of (find_in ''td'' row ! 4))) = []" ..
    with z' show "td_std ?t = ''--:--'' \<and> td_etd ?t = ''--:--'' \<and> td_delayMins ?t = Num 0" ..
  qed
  from d a s z' show ?thesis unfolding f by (intro conjI)
qed



lemma example_page_facts:
  "example_plain_row \<in> set (select_all ''tr'' example_page)"
  "qualifying_row example_plain_row"
  "match_all (trim (text_of (find_in ''td'' example_plain_row ! 4))) = []"
  "sel_attr ''src'' (find_in ''img'' (find_in ''td'' example_plain_row ! 0)) = None"
  "length (find_in ''td'' example_short_row) < 7"
  "filter qualifying_row (select_all ''tr'' [example_header_row, example_short_row]) = []"
  by code_simp+

















text \<open>
  C7. Every record \<^verbatim>\<open>parseFlights\<close> returns has a delay that is a number and not
  negative and an airline name that is not empty; if either of its times is the sentinel
  then both are and the delay is 0. A qualifying row whose time text has no match gives a
  record with both sentinels and delay 0.
\<close>

theorem C7_record_invariants:
  "(\<forall>f \<in> set (parseFlights html).
      (\<exists>d. delayMins f = Num d \<and> 0 \<le> d)
      \<and> airlineName f \<noteq> []
      \<and> (std f = ''--:--'' \<or> etd f = ''--:--'' \<longrightarrow>
           std f = ''--:--'' \<and> etd f = ''--:--'' \<and> delayMins f = Num 0))
   \<and> (\<forall>row \<in> set (select_all ''tr'' html).
        qualifying_row row \<and> match_all (trim (text_of (find_in ''td'' row ! 4))) = [] \<longrightarrow>
        record_of_row row \<in> set (parseFlights html)
        \<and> std (record_of_row row) = ''--:--'' \<and> etd (record_of_row row) = ''--:--''
        \<and> delayMins (record_of_row row) = Num 0)"
proof (intro conjI ballI)
  fix f
  assume "f \<in> set (parseFlights html)"
  then obtain row where f: "f = record_of_row row"
    by (auto simp: parseFlights_map_filter)
  note inv = record_of_row_invariant [of row]
  from inv show "\<exists>d. delayMins f = Num d \<and> 0 \<le> d" unfolding f by (rule conjunct1)
  from inv show "airlineName f \<noteq> []" unfolding f by (rule conjunct2 [THEN conjunct1])
  from inv show "std f = ''--:--'' \<or> etd f = ''--:--'' \<longrightarrow>
      std f = ''--:--'' \<and> etd f = ''--:--'' \<and> delayMins f = Num 0"
    unfolding f by (rule conjunct2 [THEN conjunct2, THEN conjunct1])
next
  fix row
  assume r: "row \<in> set (select_all ''tr'' html)"
  show "qualifying_row row \<and> match_all (trim (text_of (find_in ''td'' row ! 4))) = [] \<longrightarrow>
        record_of_row row \<in> set (parseFlights html)
        \<and> std (record_of_row row) = ''--:--'' \<and> etd (record_of_row row) = ''--:--''
        \<and> delayMins (record_of_row row) = Num 0"
  proof
    assume q: "qualifying_row row \<and> match_all (trim (text_of (find_in ''td'' row ! 4))) = []"
    from r q have mem: "record_of_row row \<in> set (parseFlights html)"
      by (simp add: parseFlights_map_filter)
    from record_of_row_invariant [of row]
    have "match_all (trim (text_of (find_in ''td'' row ! 4))) = [] \<longrightarrow>
          std (record_of_row row) = ''--:--'' \<and> etd (record_of_row row) = ''--:--''
          \<and> delayMins (record_of_row row) = Num 0"
      by (rule conjunct2 [THEN conjunct2, THEN conjunct2])
    moreover from q have "match_all (trim (text_of (find_in ''td'' row ! 4))) = []" ..
    ultimately have "std (record_of_row row) = ''--:--'' \<and> etd (record_of_row row) = ''--:--''
          \<and> delayMins (record_of_row row) = Num 0" ..
    with mem show "record_of_row row \<in> set (parseFlights html)
        \<and> std (record_of_row row) = ''--:--'' \<and> etd (record_of_row row) = ''--:--''
        \<and> delayMins (record_of_row row) = Num 0" ..
  qed
qed


theorem C7_witness:
  "example_plain_row \<in> set (select_all ''tr'' example_page)
   \<and> qualifying_row example_plain_row
   \<and> match_all (trim (text_of (find_in ''td'' example_plain_row ! 4))) = []
   \<and> record_of_row example_plain_row \<in> set (parseFlights example_page)
   \<and> std (record_of_row example_plain_row) = ''--:--''
   \<and> etd (record_of_row example_plain_row) = ''--:--''
   \<and> delayMins (record_of_row example_plain_row) = Num 0
   \<and> airlineName (record_of_row example_plain_row) \<noteq> []"
proof -
  note T = C7_record_invariants [of example_page]
  from T example_page_facts(1-3)
  have a: "record_of_row example_plain_row \<in> set (parseFlights example_page)
        \<and> std (record_of_row example_plain_row) = ''--:--''
        \<and> etd (record_of_row example_plain_row) = ''--:--''
        \<and> delayMins (record_of_row example_plain_row) = Num 0"
    by blast
  with T have "airlineName (record_of_row example_plain_row) \<noteq> []"
    by blast
  with a example_page_facts(1-3) show ?thesis by simp
qed




end
